theory Spec2Isabelle
  imports Complex_Main
begin

section \<open>Numbers and configuration\<close>

text \<open>
  The TypeScript sources compute with the type \<open>number\<close>. Coordinates, velocities and
  times are modelled as real numbers (the arithmetic is exact, rounding is not modelled);
  counters (lives, score, wave) are integers. The one place where the source can leave
  the finite numbers, the division in \<open>clampMagnitude\<close>, is written out as an
  explicit result.

  The constants below are those of \<open>src/config.ts\<close>.
\<close>

definition GAME_WIDTH :: real where "GAME_WIDTH = 800"
definition GAME_HEIGHT :: real where "GAME_HEIGHT = 600"
definition GAME_LIVES :: int where "GAME_LIVES = 3"

definition SHIP_INVINCIBILITY :: real where "SHIP_INVINCIBILITY = 2000"

definition BULLET_LIFESPAN :: real where "BULLET_LIFESPAN = 1000"
definition BULLET_SIZE :: real where "BULLET_SIZE = 2"


section \<open>utils/math.ts\<close>

text \<open>The interface \<open>Vec2\<close> with its fields \<open>x\<close> and \<open>y\<close> is the pair \<open>(x, y)\<close>.\<close>

type_synonym Vec2 = "real \<times> real"

text \<open>
  \<open>wrapPosition\<close>: the source first settles \<open>y\<close>, then \<open>x\<close>, each by its own
  \<open>if / else if\<close>.
\<close>

definition wrapPosition :: "real \<Rightarrow> real \<Rightarrow> real \<Rightarrow> Vec2" where
  "wrapPosition x y margin =
     (let y' = (if y + margin \<le> 0 then GAME_HEIGHT + margin
                else if y - margin \<ge> GAME_HEIGHT then - margin
                else y);
          x' = (if x + margin \<le> 0 then GAME_WIDTH + margin
                else if x - margin \<ge> GAME_WIDTH then - margin
                else x)
      in (x', y'))"




section \<open>entities/Bullet.ts\<close>

record bullet =
  b_x :: real
  b_y :: real
  b_velocityX :: real
  b_velocityY :: real
  b_lifespan :: real

definition new_Bullet :: "real \<Rightarrow> real \<Rightarrow> real \<Rightarrow> real \<Rightarrow> bullet" where
  "new_Bullet x y velocityX velocityY =
     \<lparr> b_x = x, b_y = y, b_velocityX = velocityX, b_velocityY = velocityY,
       b_lifespan = BULLET_LIFESPAN \<rparr>"

text \<open>\<open>Bullet.update\<close> returns the boolean of the source together with the updated bullet.\<close>

definition Bullet_update :: "real \<Rightarrow> bullet \<Rightarrow> bool \<times> bullet" where
  "Bullet_update delta b =
     (let b1 = b\<lparr> b_lifespan := b_lifespan b - delta \<rparr>
      in if b_lifespan b1 \<le> 0 then (False, b1)
         else
           (let dt = delta / 1000;
                b2 = b1\<lparr> b_x := b_x b1 + b_velocityX b1 * dt \<rparr>;
                b3 = b2\<lparr> b_y := b_y b2 + b_velocityY b2 * dt \<rparr>;
                wrapped = wrapPosition (b_x b3) (b_y b3) BULLET_SIZE
            in (True, b3\<lparr> b_x := fst wrapped, b_y := snd wrapped \<rparr>)))"

text \<open>
  A caller that keeps calling \<open>update\<close> with the deltas of the list, in turn, whatever the
  calls return: the bullet afterwards.
\<close>

fun Bullet_updates :: "real list \<Rightarrow> bullet \<Rightarrow> bullet" where
  "Bullet_updates [] b = b"
| "Bullet_updates (d # ds) b = Bullet_updates ds (snd (Bullet_update d b))"

section \<open>The scene clock\<close>

text \<open>
  Modelled from the spec: the scene clock \<open>scene.time\<close> with \<open>addEvent\<close>,
  \<open>delayedCall\<close> and \<open>removeEvent\<close> belongs to the Phaser library and is not among
  the sources. It is modelled as section 5 of the specification words it: a timer is a
  deadline compared against the one frame clock; a deadline that is removed is discarded;
  when the clock advances, each pending deadline that has been reached fires once, a
  one-shot deadline is then dropped and a repeating one is armed again one period later.
  A \<open>TimerEvent\<close> reference is the identifier \<open>ev_id\<close>; the closures that the sources
  pass as callbacks are named by the datatype \<open>callback\<close>.
\<close>

datatype callback = FlickerToggle | InvincibilityEnd | RespawnShip

record timer_event =
  ev_id :: nat
  ev_due :: real
  ev_repeat :: "real option"
  ev_callback :: callback

record clock =
  clk_now :: real
  clk_next :: nat
  clk_events :: "timer_event list"

definition addEvent :: "real \<Rightarrow> bool \<Rightarrow> callback \<Rightarrow> clock \<Rightarrow> nat \<times> clock" where
  "addEvent delay repeat cb c =
     (clk_next c,
      c\<lparr> clk_next := Suc (clk_next c),
         clk_events := clk_events c @
           [\<lparr> ev_id = clk_next c, ev_due = clk_now c + delay,
              ev_repeat = (if repeat then Some delay else None), ev_callback = cb \<rparr>] \<rparr>)"

definition delayedCall :: "real \<Rightarrow> callback \<Rightarrow> clock \<Rightarrow> nat \<times> clock" where
  "delayedCall delay cb c = addEvent delay False cb c"

definition removeEvent :: "nat \<Rightarrow> clock \<Rightarrow> clock" where
  "removeEvent t c = c\<lparr> clk_events := filter (\<lambda>e. ev_id e \<noteq> t) (clk_events c) \<rparr>"

text \<open>A deadline that fired: dropped when one-shot, armed again when repeating.\<close>

definition rearm :: "timer_event \<Rightarrow> clock \<Rightarrow> clock" where
  "rearm e c =
     (case ev_repeat e of
        None \<Rightarrow> removeEvent (ev_id e) c
      | Some period \<Rightarrow>
          c\<lparr> clk_events :=
               map (\<lambda>e'. if ev_id e' = ev_id e then e'\<lparr> ev_due := ev_due e' + period \<rparr> else e')
                 (clk_events c) \<rparr>)"

text \<open>The clock of a scene that has just started: time zero, nothing pending.\<close>

definition clock0 :: clock where
  "clock0 = \<lparr> clk_now = 0, clk_next = 0, clk_events = [] \<rparr>"

section \<open>entities/Ship.ts\<close>

text \<open>
  The fields of \<open>Ship\<close> that the simulation reads or writes; \<open>x\<close>, \<open>y\<close>, \<open>angle\<close>,
  \<open>alpha\<close> and \<open>visible\<close> are inherited from the container class. The two timer fields
  are \<open>None\<close> while \<open>undefined\<close>. The angle is the number the source adds to and
  subtracts from; the container keeps it within one turn, which \<open>cos\<close> and \<open>sin\<close> do not
  see.
\<close>

record ship =
  s_x :: real
  s_y :: real
  s_angle :: real
  s_velocityX :: real
  s_velocityY :: real
  s_isInvincible :: bool
  s_alpha :: real
  s_visible :: bool
  s_thrustVisible :: bool
  s_lastFireTime :: real
  s_flickerTimer :: "nat option"
  s_invincibilityTimer :: "nat option"

definition new_Ship :: "real \<Rightarrow> real \<Rightarrow> ship" where
  "new_Ship x y =
     \<lparr> s_x = x, s_y = y, s_angle = 0, s_velocityX = 0, s_velocityY = 0,
       s_isInvincible = False, s_alpha = 1, s_visible = True, s_thrustVisible = False,
       s_lastFireTime = 0, s_flickerTimer = None, s_invincibilityTimer = None \<rparr>"




text \<open>
  \<open>Ship.makeInvincible\<close> works on the ship and on the clock of its scene; both are
  returned.
\<close>

definition Ship_makeInvincible :: "ship \<Rightarrow> clock \<Rightarrow> ship \<times> clock" where
  "Ship_makeInvincible s c =
     (let c1 = (case s_flickerTimer s of Some t \<Rightarrow> removeEvent t c | None \<Rightarrow> c);
          c2 = (case s_invincibilityTimer s of Some t \<Rightarrow> removeEvent t c1 | None \<Rightarrow> c1);
          s1 = s\<lparr> s_isInvincible := True \<rparr>;
          (fid, c3) = addEvent 100 True FlickerToggle c2;
          s2 = s1\<lparr> s_flickerTimer := Some fid \<rparr>;
          (iid, c4) = delayedCall SHIP_INVINCIBILITY InvincibilityEnd c3;
          s3 = s2\<lparr> s_invincibilityTimer := Some iid \<rparr>
      in (s3, c4))"

text \<open>The two closures that \<open>makeInvincible\<close> hands to the clock.\<close>

definition Ship_flickerCallback :: "ship \<Rightarrow> ship" where
  "Ship_flickerCallback s = s\<lparr> s_alpha := (if s_alpha s = 1 then 1 / 2 else 1) \<rparr>"

definition Ship_invincibilityEndCallback :: "ship \<Rightarrow> clock \<Rightarrow> ship \<times> clock" where
  "Ship_invincibilityEndCallback s c =
     (let c1 = (case s_flickerTimer s of Some t \<Rightarrow> removeEvent t c | None \<Rightarrow> c);
          s1 = s\<lparr> s_alpha := 1 \<rparr>
      in (s1\<lparr> s_isInvincible := False \<rparr>, c1))"

definition Ship_reset :: "real \<Rightarrow> real \<Rightarrow> ship \<Rightarrow> clock \<Rightarrow> ship \<times> clock" where
  "Ship_reset x y s c =
     (let s1 = s\<lparr> s_x := x, s_y := y, s_velocityX := 0, s_velocityY := 0, s_angle := - 90 \<rparr>;
          (s2, c1) = Ship_makeInvincible s1 c
      in (s2\<lparr> s_visible := True \<rparr>, c1))"

definition Ship_cleanup :: "ship \<Rightarrow> clock \<Rightarrow> clock" where
  "Ship_cleanup s c =
     (let c1 = (case s_flickerTimer s of Some t \<Rightarrow> removeEvent t c | None \<Rightarrow> c)
      in case s_invincibilityTimer s of Some t \<Rightarrow> removeEvent t c1 | None \<Rightarrow> c1)"



section \<open>entities/Asteroid.ts\<close>

datatype AsteroidSize = LARGE | MEDIUM | SMALL









text \<open>
  An asteroid: position, size, velocity, and the polygon drawn for it (\<open>a_graphics\<close>).
  The constructor takes the two optional velocity arguments as options.
\<close>

record asteroid =
  a_x :: real
  a_y :: real
  a_size :: AsteroidSize
  a_velocityX :: real
  a_velocityY :: real
  a_graphics :: "Vec2 list"



section \<open>scenes/GameScene.ts\<close>

text \<open>
  The file \<open>GameScene.ts\<close> itself is not among the sources; the functions below are
  translated from its listing in
  \<open>docs/plans/2026-02-16-asteroids-implementation-plan.md\<close> (Task 8). The listing reads
  the components of a \<open>velocityFromAngle\<close> result as \<open>vx\<close> and \<open>vy\<close>; they are the
  components \<open>x\<close> and \<open>y\<close> of \<open>utils/math.ts\<close>.

  The state of the scene: its fields, the clock \<open>this.time\<close>, the number of random draws
  made so far, the number shown by the lives text, and \<open>g_started\<close>, which is
  \<open>Some score\<close> once \<open>this.scene.start('GameOver', { score })\<close> has been called.
\<close>

record game =
  g_ship :: ship
  g_asteroids :: "asteroid list"
  g_bullets :: "bullet list"
  g_score :: int
  g_lives :: int
  g_wave :: int
  g_isRespawning :: bool
  g_livesText :: int
  g_time :: clock
  g_random :: nat
  g_started :: "int option"







text \<open>
  \<open>create\<close>, on the clock \<open>c\<close> of the scene and after \<open>i\<close> random draws; the state it
  has built when it calls \<open>spawnWave\<close> is \<open>create_state\<close>.
\<close>

definition create_state :: "clock \<Rightarrow> nat \<Rightarrow> game" where
  "create_state c i =
     \<lparr> g_ship = (new_Ship (GAME_WIDTH / 2) (GAME_HEIGHT / 2))\<lparr> s_angle := - 90 \<rparr>,
       g_asteroids = [], g_bullets = [], g_score = 0, g_lives = GAME_LIVES, g_wave = 1,
       g_isRespawning = False, g_livesText = GAME_LIVES, g_time = c, g_random = i,
       g_started = None \<rparr>"





text \<open>
  \<open>onShipHit\<close>. The delayed call of the respawn is the deadline \<open>RespawnShip\<close>; its
  closure is \<open>respawnCallback\<close>.
\<close>

definition onShipHit :: "game \<Rightarrow> game" where
  "onShipHit g =
     (let g1 = g\<lparr> g_lives := g_lives g - 1 \<rparr>;
          g2 = g1\<lparr> g_livesText := g_lives g1 \<rparr>
      in if g_lives g2 \<le> 0
         then g2\<lparr> g_time := Ship_cleanup (g_ship g2) (g_time g2), g_started := Some (g_score g2) \<rparr>
         else
           (let g3 = g2\<lparr> g_ship := (g_ship g2)\<lparr> s_visible := False \<rparr> \<rparr>;
                g4 = g3\<lparr> g_isRespawning := True \<rparr>;
                (t, c) = delayedCall 1000 RespawnShip (g_time g4)
            in g4\<lparr> g_time := c \<rparr>))"

definition respawnCallback :: "game \<Rightarrow> game" where
  "respawnCallback g =
     (let s1 = (g_ship g)\<lparr> s_visible := True \<rparr>;
          (s2, c) = Ship_reset (GAME_WIDTH / 2) (GAME_HEIGHT / 2) s1 (g_time g)
      in g\<lparr> g_ship := s2, g_time := c, g_isRespawning := False \<rparr>)"

text \<open>
  \<open>checkShipAsteroidCollisions\<close>. The overlap test of the physics engine is the
  parameter \<open>overlap\<close>; the loop stops at the first asteroid that overlaps the ship.
\<close>

fun checkShipAsteroidCollisions_loop ::
  "(ship \<Rightarrow> asteroid \<Rightarrow> bool) \<Rightarrow> asteroid list \<Rightarrow> game \<Rightarrow> game" where
  "checkShipAsteroidCollisions_loop overlap [] g = g"
| "checkShipAsteroidCollisions_loop overlap (asteroid # rest) g =
     (if overlap (g_ship g) asteroid then onShipHit g
      else checkShipAsteroidCollisions_loop overlap rest g)"

definition checkShipAsteroidCollisions :: "(ship \<Rightarrow> asteroid \<Rightarrow> bool) \<Rightarrow> game \<Rightarrow> game" where
  "checkShipAsteroidCollisions overlap g =
     (if g_isRespawning g \<or> s_isInvincible (g_ship g) then g
      else checkShipAsteroidCollisions_loop overlap (g_asteroids g) g)"

section \<open>The clock at work in the scene\<close>

text \<open>
  What the closures named by \<open>callback\<close> do to the scene, and one advance of the frame
  clock by \<open>delta\<close>: every deadline that was pending when the advance began and is still
  pending when its turn comes fires if it has been reached.
\<close>

fun run_callback :: "callback \<Rightarrow> game \<Rightarrow> game" where
  "run_callback FlickerToggle g = g\<lparr> g_ship := Ship_flickerCallback (g_ship g) \<rparr>"
| "run_callback InvincibilityEnd g =
     (let (s, c) = Ship_invincibilityEndCallback (g_ship g) (g_time g)
      in g\<lparr> g_ship := s, g_time := c \<rparr>)"
| "run_callback RespawnShip g = respawnCallback g"

definition fire_due :: "nat \<Rightarrow> game \<Rightarrow> game" where
  "fire_due t g =
     (case find (\<lambda>e. ev_id e = t) (clk_events (g_time g)) of
        None \<Rightarrow> g
      | Some e \<Rightarrow>
          if ev_due e \<le> clk_now (g_time g)
          then run_callback (ev_callback e) (g\<lparr> g_time := rearm e (g_time g) \<rparr>)
          else g)"

definition tick :: "real \<Rightarrow> game \<Rightarrow> game" where
  "tick delta g =
     (let c = g_time g;
          g1 = g\<lparr> g_time := c\<lparr> clk_now := clk_now c + delta \<rparr> \<rparr>
      in fold fire_due (map ev_id (clk_events (g_time g1))) g1)"

fun ticks :: "real list \<Rightarrow> game \<Rightarrow> game" where
  "ticks [] g = g"
| "ticks (d # ds) g = ticks ds (tick d g)"

text \<open>\<open>makeInvincible\<close> called on the ship of the scene.\<close>

definition game_makeInvincible :: "game \<Rightarrow> game" where
  "game_makeInvincible g =
     (let (s, c) = Ship_makeInvincible (g_ship g) (g_time g)
      in g\<lparr> g_ship := s, g_time := c \<rparr>)"

text \<open>
  The states of the session life cycle, as the specification names them, read off the
  scene.
\<close>

datatype phase = Playing | Respawning | GameOver

definition phase :: "game \<Rightarrow> phase" where
  "phase g =
     (if g_started g \<noteq> None then GameOver
      else if g_isRespawning g then Respawning
      else Playing)"

section \<open>Conditions on the pending deadlines\<close>

text \<open>
  \<open>ship_timers_only\<close>: every pending deadline is one that the ship holds in its
  \<open>flickerTimer\<close> or \<open>invincibilityTimer\<close> field (in particular no respawn is pending).
  \<open>invincible_until D\<close>: the ship is invincible, the clock has not reached \<open>D\<close>, and the
  pending deadlines are the ship's flicker and the end of its invincibility at \<open>D\<close>.
  \<open>invincibility_over\<close>: the ship is not invincible and nothing is pending.
\<close>

definition ship_timers_only :: "game \<Rightarrow> bool" where
  "ship_timers_only g =
     (\<forall>e \<in> set (clk_events (g_time g)).
        s_flickerTimer (g_ship g) = Some (ev_id e)
        \<or> s_invincibilityTimer (g_ship g) = Some (ev_id e))"

definition invincible_until :: "real \<Rightarrow> game \<Rightarrow> bool" where
  "invincible_until D g =
     (\<exists>a b df. a \<noteq> b
        \<and> clk_events (g_time g) =
            [\<lparr> ev_id = a, ev_due = df, ev_repeat = Some 100, ev_callback = FlickerToggle \<rparr>,
             \<lparr> ev_id = b, ev_due = D, ev_repeat = None, ev_callback = InvincibilityEnd \<rparr>]
        \<and> s_flickerTimer (g_ship g) = Some a
        \<and> s_invincibilityTimer (g_ship g) = Some b
        \<and> s_isInvincible (g_ship g)
        \<and> clk_now (g_time g) < D)"

definition invincibility_over :: "game \<Rightarrow> bool" where
  "invincibility_over g = (clk_events (g_time g) = [] \<and> \<not> s_isInvincible (g_ship g))"

text \<open>
  \<open>ready n\<close>: the session is in \<open>Playing\<close> with \<open>n\<close> lives, the ship can be hit, no
  deadline is pending and there is an asteroid.
\<close>

definition ready :: "int \<Rightarrow> game \<Rightarrow> bool" where
  "ready n g =
     (phase g = Playing \<and> \<not> s_isInvincible (g_ship g) \<and> clk_events (g_time g) = []
      \<and> g_lives g = n \<and> g_asteroids g \<noteq> [])"

section \<open>A sample session\<close>

text \<open>
  The state that \<open>create\<close> builds, at time zero, with \<open>n\<close> lives and one large asteroid
  resting on the ship.
\<close>

definition session_with_lives :: "int \<Rightarrow> game" where
  "session_with_lives n =
     (create_state clock0 0)
       \<lparr> g_asteroids := [\<lparr> a_x = GAME_WIDTH / 2, a_y = GAME_HEIGHT / 2, a_size = LARGE,
                           a_velocityX = 0, a_velocityY = 0, a_graphics = [] \<rparr>],
         g_lives := n, g_livesText := n \<rparr>"

section \<open>Conditions on spawn positions\<close>




section \<open>Properties of the position wrap\<close>








section \<open>Properties of the magnitude clamp\<close>









section \<open>Properties of bullets\<close>

lemma Bullet_update_expired:
  assumes "b_lifespan b - delta \<le> 0"
  shows "Bullet_update delta b = (False, b\<lparr> b_lifespan := b_lifespan b - delta \<rparr>)"
  using assms by (simp add: Bullet_update_def Let_def)

lemma Bullet_update_alive:
  assumes "0 < b_lifespan b - delta"
  shows "Bullet_update delta b =
           (True, b\<lparr> b_lifespan := b_lifespan b - delta,
                     b_x := fst (wrapPosition (b_x b + b_velocityX b * (delta / 1000))
                                   (b_y b + b_velocityY b * (delta / 1000)) BULLET_SIZE),
                     b_y := snd (wrapPosition (b_x b + b_velocityX b * (delta / 1000))
                                   (b_y b + b_velocityY b * (delta / 1000)) BULLET_SIZE) \<rparr>)"
  using assms by (simp add: Bullet_update_def Let_def)

text \<open>
  C5. \<open>Bullet.update(delta)\<close> first takes \<open>delta\<close> off the lifespan. If the lifespan is
  then \<open>\<le> 0\<close> it returns false and the position is the one before the call; otherwise the
  position advances by velocity times \<open>delta / 1000\<close>, is wrapped with margin
  \<open>BULLET.SIZE\<close>, and the call returns true. The velocity never changes. (This holds
  for every delta, the non-negative ones included.)
\<close>

theorem Bullet_update_spec:
  "b_lifespan (snd (Bullet_update delta b)) = b_lifespan b - delta
   \<and> b_velocityX (snd (Bullet_update delta b)) = b_velocityX b
   \<and> b_velocityY (snd (Bullet_update delta b)) = b_velocityY b
   \<and> (b_lifespan b - delta \<le> 0 \<longrightarrow>
        fst (Bullet_update delta b) = False
        \<and> b_x (snd (Bullet_update delta b)) = b_x b
        \<and> b_y (snd (Bullet_update delta b)) = b_y b)
   \<and> (0 < b_lifespan b - delta \<longrightarrow>
        fst (Bullet_update delta b) = True
        \<and> (b_x (snd (Bullet_update delta b)), b_y (snd (Bullet_update delta b)))
            = wrapPosition (b_x b + b_velocityX b * (delta / 1000))
                           (b_y b + b_velocityY b * (delta / 1000)) BULLET_SIZE)"
proof (cases "b_lifespan b - delta \<le> 0")
  case True
  then show ?thesis by (simp add: Bullet_update_expired)
next
  case False
  then have "0 < b_lifespan b - delta" by simp
  then show ?thesis by (simp add: Bullet_update_alive)
qed

theorem Bullet_update_spec_witness:
  "(b_lifespan (new_Bullet 100 100 300 (- 400)) - 1000 \<le> 0
      \<and> fst (Bullet_update 1000 (new_Bullet 100 100 300 (- 400))) = False
      \<and> b_x (snd (Bullet_update 1000 (new_Bullet 100 100 300 (- 400)))) = 100
      \<and> b_y (snd (Bullet_update 1000 (new_Bullet 100 100 300 (- 400)))) = 100)
   \<and> (0 < b_lifespan (new_Bullet 100 100 300 (- 400)) - 500
      \<and> fst (Bullet_update 500 (new_Bullet 100 100 300 (- 400))) = True
      \<and> b_x (snd (Bullet_update 500 (new_Bullet 100 100 300 (- 400)))) = 250
      \<and> b_y (snd (Bullet_update 500 (new_Bullet 100 100 300 (- 400)))) = 602
      \<and> b_lifespan (snd (Bullet_update 500 (new_Bullet 100 100 300 (- 400)))) = 500)"
  using Bullet_update_spec [of 1000 "new_Bullet 100 100 300 (- 400)"]
    Bullet_update_spec [of 500 "new_Bullet 100 100 300 (- 400)"]
  by (simp add: new_Bullet_def BULLET_LIFESPAN_def BULLET_SIZE_def wrapPosition_def
      GAME_WIDTH_def GAME_HEIGHT_def)

lemma Bullet_updates_expired:
  assumes "b_lifespan b \<le> 0" and "\<forall>d\<in>set ds. 0 \<le> d"
  shows "b_x (Bullet_updates ds b) = b_x b \<and> b_y (Bullet_updates ds b) = b_y b
         \<and> b_lifespan (Bullet_updates ds b) \<le> b_lifespan b"
  using assms
proof (induction ds arbitrary: b)
  case Nil
  then show ?case by simp
next
  case (Cons d ds)
  have d: "0 \<le> d" and ds: "\<forall>d\<in>set ds. 0 \<le> d" using Cons.prems(2) by simp_all
  have e: "b_lifespan b - d \<le> 0" using Cons.prems(1) d by simp
  let ?b1 = "b\<lparr> b_lifespan := b_lifespan b - d \<rparr>"
  have u: "Bullet_update d b = (False, ?b1)" using e by (rule Bullet_update_expired)
  have "b_lifespan ?b1 \<le> 0" using e by simp
  from Cons.IH [OF this ds] show ?case using u d by simp
qed

text \<open>
  C9. Once \<open>update\<close> has returned false, every later call with a non-negative delta
  returns false as well and leaves the position where it was: the lifespan is \<open>\<le> 0\<close>
  and only goes down.
\<close>

theorem Bullet_expired_stays_expired:
  assumes "fst (Bullet_update d0 b) = False"
      and "\<forall>d\<in>set ds. 0 \<le> d"
      and "0 \<le> d"
  shows "fst (Bullet_update d (Bullet_updates ds (snd (Bullet_update d0 b)))) = False
       \<and> b_x (snd (Bullet_update d (Bullet_updates ds (snd (Bullet_update d0 b)))))
           = b_x (snd (Bullet_update d0 b))
       \<and> b_y (snd (Bullet_update d (Bullet_updates ds (snd (Bullet_update d0 b)))))
           = b_y (snd (Bullet_update d0 b))
       \<and> b_x (snd (Bullet_update d0 b)) = b_x b
       \<and> b_y (snd (Bullet_update d0 b)) = b_y b
       \<and> b_lifespan (snd (Bullet_update d (Bullet_updates ds (snd (Bullet_update d0 b)))))
           \<le> b_lifespan (Bullet_updates ds (snd (Bullet_update d0 b)))
       \<and> b_lifespan (Bullet_updates ds (snd (Bullet_update d0 b)))
           \<le> b_lifespan (snd (Bullet_update d0 b))
       \<and> b_lifespan (snd (Bullet_update d0 b)) \<le> 0"
proof -
  let ?b1 = "snd (Bullet_update d0 b)"
  let ?bn = "Bullet_updates ds ?b1"
  have e0: "b_lifespan b - d0 \<le> 0"
  proof (rule ccontr)
    assume "\<not> b_lifespan b - d0 \<le> 0"
    then have "0 < b_lifespan b - d0" by simp
    then have "fst (Bullet_update d0 b) = True" by (simp add: Bullet_update_alive)
    with assms(1) show False by simp
  qed
  then have b1: "Bullet_update d0 b = (False, b\<lparr> b_lifespan := b_lifespan b - d0 \<rparr>)"
    by (rule Bullet_update_expired)
  have l1: "b_lifespan ?b1 \<le> 0" using e0 by (simp add: b1)
  have n: "b_x ?bn = b_x ?b1 \<and> b_y ?bn = b_y ?b1 \<and> b_lifespan ?bn \<le> b_lifespan ?b1"
    using l1 assms(2) by (rule Bullet_updates_expired)
  then have "b_lifespan ?bn - d \<le> 0" using l1 assms(3) by simp
  then have "Bullet_update d ?bn = (False, ?bn\<lparr> b_lifespan := b_lifespan ?bn - d \<rparr>)"
    by (rule Bullet_update_expired)
  then show ?thesis using n l1 assms(3) by (simp add: b1)
qed

theorem Bullet_expired_stays_expired_witness:
  "fst (Bullet_update 1000 (new_Bullet 100 100 300 (- 400))) = False
   \<and> list_all (\<lambda>d. 0 \<le> d) [16, 0, 33 :: real]
   \<and> (0::real) \<le> 16
   \<and> fst (Bullet_update 16
        (Bullet_updates [16, 0, 33] (snd (Bullet_update 1000 (new_Bullet 100 100 300 (- 400))))))
       = False
   \<and> b_x (snd (Bullet_update 16
        (Bullet_updates [16, 0, 33] (snd (Bullet_update 1000 (new_Bullet 100 100 300 (- 400)))))))
       = 100"
proof -
  have h1: "fst (Bullet_update 1000 (new_Bullet 100 100 300 (- 400))) = False"
    by (simp add: Bullet_update_def new_Bullet_def BULLET_LIFESPAN_def)
  have h2: "\<forall>d\<in>set [16, 0, 33 :: real]. 0 \<le> d" by simp
  have h3: "(0::real) \<le> 16" by simp
  have x: "b_x (new_Bullet 100 100 300 (- 400)) = 100" by (simp add: new_Bullet_def)
  show ?thesis
    using Bullet_expired_stays_expired [OF h1 h2 h3] h1 x by simp
qed

section \<open>The speed cap of the ship\<close>












section \<open>Invincibility\<close>

lemma remove_ship_timers:
  assumes "\<forall>e \<in> set (clk_events c). ft = Some (ev_id e) \<or> it = Some (ev_id e)"
  shows "clk_events (case it of Some t \<Rightarrow> removeEvent t (case ft of Some t \<Rightarrow> removeEvent t c | None \<Rightarrow> c)
                      | None \<Rightarrow> (case ft of Some t \<Rightarrow> removeEvent t c | None \<Rightarrow> c)) = []"
proof (cases ft; cases it)
  fix a b assume "ft = Some a" "it = Some b"
  with assms show ?thesis by (auto simp: removeEvent_def filter_empty_conv)
next
  fix a assume "ft = Some a" "it = None"
  with assms show ?thesis by (auto simp: removeEvent_def filter_empty_conv)
next
  fix b assume "ft = None" "it = Some b"
  with assms show ?thesis by (auto simp: removeEvent_def filter_empty_conv)
next
  assume n: "ft = None" "it = None"
  show ?thesis
  proof (cases "clk_events c")
    case Nil
    with n show ?thesis by simp
  next
    case (Cons x xs)
    with assms have "ft = Some (ev_id x) \<or> it = Some (ev_id x)" by simp
    with n have False by simp
    then show ?thesis ..
  qed
qed

lemma remove_ship_timers_other:
  "clk_now (case it of Some t \<Rightarrow> removeEvent t (case ft of Some t \<Rightarrow> removeEvent t c | None \<Rightarrow> c)
                      | None \<Rightarrow> (case ft of Some t \<Rightarrow> removeEvent t c | None \<Rightarrow> c)) = clk_now c"
  by (cases ft; cases it) (simp_all add: removeEvent_def)

lemma makeInvincible_shape:
  assumes "ship_timers_only g"
  shows "invincible_until (clk_now (g_time g) + SHIP_INVINCIBILITY) (game_makeInvincible g)
       \<and> clk_now (g_time (game_makeInvincible g)) = clk_now (g_time g)"
proof -
  let ?c2 = "case s_invincibilityTimer (g_ship g) of
               Some t \<Rightarrow> removeEvent t (case s_flickerTimer (g_ship g) of
                                         Some t \<Rightarrow> removeEvent t (g_time g) | None \<Rightarrow> g_time g)
             | None \<Rightarrow> (case s_flickerTimer (g_ship g) of
                          Some t \<Rightarrow> removeEvent t (g_time g) | None \<Rightarrow> g_time g)"
  have e: "clk_events ?c2 = []"
    using assms unfolding ship_timers_only_def by (rule remove_ship_timers)
  have n: "clk_now ?c2 = clk_now (g_time g)" by (rule remove_ship_timers_other)
  show ?thesis
    using e n
    by (simp add: game_makeInvincible_def Ship_makeInvincible_def Let_def addEvent_def
          delayedCall_def invincible_until_def SHIP_INVINCIBILITY_def)
qed

lemma tick_invincible:
  assumes "invincible_until D g"
  shows "(if clk_now (g_time g) + d < D then invincible_until D (tick d g)
          else invincibility_over (tick d g))
       \<and> clk_now (g_time (tick d g)) = clk_now (g_time g) + d"
proof -
  from assms obtain a b df where ab: "a \<noteq> b"
    and ev: "clk_events (g_time g) =
            [\<lparr> ev_id = a, ev_due = df, ev_repeat = Some 100, ev_callback = FlickerToggle \<rparr>,
             \<lparr> ev_id = b, ev_due = D, ev_repeat = None, ev_callback = InvincibilityEnd \<rparr>]"
    and f: "s_flickerTimer (g_ship g) = Some a"
    and i: "s_invincibilityTimer (g_ship g) = Some b"
    and inv: "s_isInvincible (g_ship g)"
    and lt: "clk_now (g_time g) < D"
    unfolding invincible_until_def by blast
  show ?thesis
    using ab ev f i inv lt
    by (simp add: tick_def fire_due_def rearm_def removeEvent_def Let_def
        Ship_flickerCallback_def Ship_invincibilityEndCallback_def
        invincible_until_def invincibility_over_def)
qed

lemma tick_over:
  assumes "invincibility_over g"
  shows "invincibility_over (tick d g)
       \<and> clk_now (g_time (tick d g)) = clk_now (g_time g) + d"
  using assms by (simp add: tick_def Let_def invincibility_over_def)

lemma ticks_over:
  assumes "invincibility_over g"
  shows "invincibility_over (ticks ds g)
       \<and> clk_now (g_time (ticks ds g)) = clk_now (g_time g) + sum_list ds"
  using assms
proof (induction ds arbitrary: g)
  case Nil
  then show ?case by simp
next
  case (Cons d ds)
  from tick_over [OF Cons.prems, of d] Cons.IH [of "tick d g"] show ?case by simp
qed

lemma ticks_invincible:
  assumes "invincible_until D g" and "\<forall>d\<in>set ds. 0 \<le> d"
  shows "(if clk_now (g_time g) + sum_list ds < D then invincible_until D (ticks ds g)
          else invincibility_over (ticks ds g))
       \<and> clk_now (g_time (ticks ds g)) = clk_now (g_time g) + sum_list ds"
  using assms
proof (induction ds arbitrary: g)
  case Nil
  then show ?case by (auto simp: invincible_until_def)
next
  case (Cons d ds)
  have nn: "\<forall>d\<in>set ds. 0 \<le> d" using Cons.prems(2) by simp
  then have s: "0 \<le> sum_list ds" by (simp add: sum_list_nonneg)
  note t = tick_invincible [OF Cons.prems(1), of d]
  show ?case
  proof (cases "clk_now (g_time g) + d < D")
    case True
    with t have "invincible_until D (tick d g)" by simp
    from Cons.IH [OF this nn] t show ?thesis by (simp add: add.assoc)
  next
    case False
    with t have "invincibility_over (tick d g)" by simp
    from ticks_over [OF this, of ds] t False s show ?thesis by (simp add: add.assoc)
  qed
qed


lemma invincible_until_timers_only:
  assumes "invincible_until D g"
  shows "ship_timers_only g \<and> s_isInvincible (g_ship g)"
  using assms by (auto simp: invincible_until_def ship_timers_only_def)

lemma invincibility_over_timers_only:
  assumes "invincibility_over g"
  shows "ship_timers_only g \<and> \<not> s_isInvincible (g_ship g)"
  using assms by (simp add: invincibility_over_def ship_timers_only_def)

lemma makeInvincible_then_ticks:
  assumes "ship_timers_only g" and "\<forall>d\<in>set ds. 0 \<le> d"
  shows "s_isInvincible (g_ship (ticks ds (game_makeInvincible g)))
           = (sum_list ds < SHIP_INVINCIBILITY)
       \<and> ship_timers_only (ticks ds (game_makeInvincible g))
       \<and> clk_now (g_time (ticks ds (game_makeInvincible g))) = clk_now (g_time g) + sum_list ds"
proof -
  let ?g1 = "game_makeInvincible g"
  let ?D = "clk_now (g_time g) + SHIP_INVINCIBILITY"
  from makeInvincible_shape [OF assms(1)]
  have i: "invincible_until ?D ?g1" and n: "clk_now (g_time ?g1) = clk_now (g_time g)"
    by simp_all
  note t = ticks_invincible [OF i assms(2)]
  show ?thesis
  proof (cases "sum_list ds < SHIP_INVINCIBILITY")
    case True
    with t n have "invincible_until ?D (ticks ds ?g1)" by simp
    from invincible_until_timers_only [OF this] t n True show ?thesis by simp
  next
    case False
    with t n have "invincibility_over (ticks ds ?g1)" by simp
    from invincibility_over_timers_only [OF this] t n False show ?thesis by simp
  qed
qed

text \<open>
  C6. Let the pending deadlines be the ship's own (\<open>ship_timers_only\<close>). After
  \<open>makeInvincible\<close>, however the clock advances by non-negative steps, \<open>isInvincible\<close>
  is true as long as less than \<open>SHIP.INVINCIBILITY\<close> has elapsed since the call and false
  from then on. If \<open>makeInvincible\<close> is called again at any moment, the same holds for
  the time elapsed since the second call, whatever had elapsed since the first: directly
  after the second call exactly one deadline that ends the invincibility is pending, the
  full duration after that call.
\<close>

theorem makeInvincible_duration:
  assumes "ship_timers_only g" and "\<forall>d\<in>set ds. 0 \<le> d" and "\<forall>d\<in>set ds2. 0 \<le> d"
  shows "s_isInvincible (g_ship (ticks ds (game_makeInvincible g)))
           = (sum_list ds < SHIP_INVINCIBILITY)
       \<and> s_isInvincible
           (g_ship (ticks ds2 (game_makeInvincible (ticks ds (game_makeInvincible g)))))
           = (sum_list ds2 < SHIP_INVINCIBILITY)
       \<and> map ev_due (filter (\<lambda>e. ev_callback e = InvincibilityEnd)
            (clk_events (g_time (game_makeInvincible (ticks ds (game_makeInvincible g))))))
           = [clk_now (g_time g) + sum_list ds + SHIP_INVINCIBILITY]"
proof -
  let ?g2 = "ticks ds (game_makeInvincible g)"
  note a = makeInvincible_then_ticks [OF assms(1) assms(2)]
  then have w: "ship_timers_only ?g2" by simp
  note b = makeInvincible_then_ticks [OF w assms(3)]
  from makeInvincible_shape [OF w]
  have "invincible_until (clk_now (g_time ?g2) + SHIP_INVINCIBILITY) (game_makeInvincible ?g2)"
    by simp
  then have "map ev_due (filter (\<lambda>e. ev_callback e = InvincibilityEnd)
               (clk_events (g_time (game_makeInvincible ?g2))))
             = [clk_now (g_time ?g2) + SHIP_INVINCIBILITY]"
    by (auto simp: invincible_until_def)
  with a b show ?thesis by simp
qed

lemma create_state_timers_only: "ship_timers_only (create_state clock0 0)"
  by (simp add: ship_timers_only_def create_state_def clock0_def)

theorem makeInvincible_duration_witness:
  "ship_timers_only (create_state clock0 0)
   \<and> list_all (\<lambda>d. 0 \<le> d) [1000, 500 :: real]
   \<and> list_all (\<lambda>d. 0 \<le> d) [600, 1399 :: real]
   \<and> s_isInvincible (g_ship (ticks [1000, 500] (game_makeInvincible (create_state clock0 0))))
   \<and> s_isInvincible (g_ship (ticks [600, 1399]
        (game_makeInvincible (ticks [1000, 500] (game_makeInvincible (create_state clock0 0))))))
   \<and> \<not> s_isInvincible (g_ship (ticks [600, 1399, 1]
        (game_makeInvincible (ticks [1000, 500] (game_makeInvincible (create_state clock0 0))))))"
proof -
  have h1: "\<forall>d\<in>set [1000, 500 :: real]. 0 \<le> d" by simp
  have h2: "\<forall>d\<in>set [600, 1399 :: real]. 0 \<le> d" by simp
  have h3: "\<forall>d\<in>set [600, 1399, 1 :: real]. 0 \<le> d" by simp
  show ?thesis
    using makeInvincible_duration [OF create_state_timers_only h1 h2]
      makeInvincible_duration [OF create_state_timers_only h1 h3]
      create_state_timers_only
    by (simp add: SHIP_INVINCIBILITY_def)
qed

section \<open>Losing a life\<close>

lemma checkShipAsteroidCollisions_loop_hit:
  assumes "\<exists>a \<in> set as. overlap (g_ship g) a"
  shows "checkShipAsteroidCollisions_loop overlap as g = onShipHit g"
  using assms by (induction as) auto

lemma checkShipAsteroidCollisions_hit:
  assumes "phase g = Playing" and "\<not> s_isInvincible (g_ship g)"
    and "\<exists>a \<in> set (g_asteroids g). overlap (g_ship g) a"
  shows "checkShipAsteroidCollisions overlap g = onShipHit g"
proof -
  from assms(1) have "\<not> g_isRespawning g" by (simp add: phase_def split: if_splits)
  with assms(2) checkShipAsteroidCollisions_loop_hit [of "g_asteroids g" overlap g] assms(3)
  show ?thesis
    by (simp add: checkShipAsteroidCollisions_def)
qed

lemma onShipHit_respawning:
  assumes "phase g = Playing" and "1 < g_lives g"
  shows "phase (onShipHit g) = Respawning
       \<and> g_lives (onShipHit g) = g_lives g - 1
       \<and> g_livesText (onShipHit g) = g_lives g - 1
       \<and> \<not> s_visible (g_ship (onShipHit g))
       \<and> clk_events (g_time (onShipHit g)) = clk_events (g_time g) @
            [\<lparr> ev_id = clk_next (g_time g), ev_due = clk_now (g_time g) + 1000,
               ev_repeat = None, ev_callback = RespawnShip \<rparr>]
       \<and> g_asteroids (onShipHit g) = g_asteroids g
       \<and> g_score (onShipHit g) = g_score g
       \<and> clk_now (g_time (onShipHit g)) = clk_now (g_time g)"
  using assms
  by (simp add: onShipHit_def Let_def delayedCall_def addEvent_def phase_def split: if_splits)

lemma Ship_cleanup_events:
  "clk_events (Ship_cleanup s c) =
     filter (\<lambda>e. Some (ev_id e) \<noteq> s_flickerTimer s \<and> Some (ev_id e) \<noteq> s_invincibilityTimer s)
       (clk_events c)"
  by (cases "s_flickerTimer s"; cases "s_invincibilityTimer s")
     (auto simp: Ship_cleanup_def removeEvent_def Let_def intro: filter_cong)

lemma onShipHit_gameOver:
  assumes "g_lives g \<le> 1"
  shows "phase (onShipHit g) = GameOver
       \<and> g_lives (onShipHit g) = g_lives g - 1
       \<and> g_livesText (onShipHit g) = g_lives g - 1
       \<and> g_started (onShipHit g) = Some (g_score g)
       \<and> g_isRespawning (onShipHit g) = g_isRespawning g
       \<and> clk_events (g_time (onShipHit g)) =
           filter (\<lambda>e. Some (ev_id e) \<noteq> s_flickerTimer (g_ship g)
                      \<and> Some (ev_id e) \<noteq> s_invincibilityTimer (g_ship g))
             (clk_events (g_time g))
       \<and> g_asteroids (onShipHit g) = g_asteroids g"
  using assms
  by (simp add: onShipHit_def Let_def phase_def Ship_cleanup_events)


lemma tick_respawn:
  assumes "clk_events (g_time g) =
             [\<lparr> ev_id = k, ev_due = D0, ev_repeat = None, ev_callback = RespawnShip \<rparr>]"
      and "D0 \<le> clk_now (g_time g) + d"
  shows "invincible_until (clk_now (g_time g) + d + SHIP_INVINCIBILITY) (tick d g)
       \<and> \<not> g_isRespawning (tick d g)
       \<and> s_visible (g_ship (tick d g))
       \<and> s_x (g_ship (tick d g)) = GAME_WIDTH / 2
       \<and> s_y (g_ship (tick d g)) = GAME_HEIGHT / 2
       \<and> g_lives (tick d g) = g_lives g
       \<and> g_started (tick d g) = g_started g
       \<and> g_asteroids (tick d g) = g_asteroids g
       \<and> g_score (tick d g) = g_score g
       \<and> clk_now (g_time (tick d g)) = clk_now (g_time g) + d"
  using assms
  by (cases "s_flickerTimer (g_ship g)"; cases "s_invincibilityTimer (g_ship g)")
     (simp_all add: tick_def Let_def fire_due_def rearm_def removeEvent_def respawnCallback_def
      Ship_reset_def Ship_makeInvincible_def addEvent_def delayedCall_def invincible_until_def
      SHIP_INVINCIBILITY_def)

lemma tick_invincible_frame:
  assumes "invincible_until D g"
  shows "g_lives (tick d g) = g_lives g
       \<and> g_started (tick d g) = g_started g
       \<and> g_isRespawning (tick d g) = g_isRespawning g
       \<and> g_asteroids (tick d g) = g_asteroids g
       \<and> g_score (tick d g) = g_score g"
proof -
  from assms obtain a b df where ab: "a \<noteq> b"
    and ev: "clk_events (g_time g) =
            [\<lparr> ev_id = a, ev_due = df, ev_repeat = Some 100, ev_callback = FlickerToggle \<rparr>,
             \<lparr> ev_id = b, ev_due = D, ev_repeat = None, ev_callback = InvincibilityEnd \<rparr>]"
    and f: "s_flickerTimer (g_ship g) = Some a"
    unfolding invincible_until_def by blast
  show ?thesis
    using ab ev f
    by (simp add: tick_def fire_due_def rearm_def removeEvent_def Let_def
        Ship_flickerCallback_def Ship_invincibilityEndCallback_def)
qed


lemma respawn_cycle:
  assumes "ready n g" and "1 < n" and "\<forall>s a. overlap s a"
  shows "phase (checkShipAsteroidCollisions overlap g) = Respawning
       \<and> g_lives (checkShipAsteroidCollisions overlap g) = n - 1
       \<and> phase (tick 1000 (checkShipAsteroidCollisions overlap g)) = Playing
       \<and> checkShipAsteroidCollisions overlap (tick 1000 (checkShipAsteroidCollisions overlap g))
           = tick 1000 (checkShipAsteroidCollisions overlap g)
       \<and> ready (n - 1)
           (tick SHIP_INVINCIBILITY (tick 1000 (checkShipAsteroidCollisions overlap g)))"
proof -
  from assms(1) have p: "phase g = Playing" and i: "\<not> s_isInvincible (g_ship g)"
    and e: "clk_events (g_time g) = []" and l: "g_lives g = n" and a: "g_asteroids g \<noteq> []"
    by (simp_all add: ready_def)
  from a assms(3) have "\<exists>a \<in> set (g_asteroids g). overlap (g_ship g) a"
    by (cases "g_asteroids g") auto
  with p i have h: "checkShipAsteroidCollisions overlap g = onShipHit g"
    by (rule checkShipAsteroidCollisions_hit)
  let ?g1 = "onShipHit g"
  let ?g2 = "tick 1000 ?g1"
  let ?g3 = "tick SHIP_INVINCIBILITY ?g2"
  from assms(2) l have "1 < g_lives g" by simp
  note r = onShipHit_respawning [OF p this]
  from r have s1: "g_started ?g1 = None" by (simp add: phase_def split: if_splits)
  from r e have ev1: "clk_events (g_time ?g1) =
       [\<lparr> ev_id = clk_next (g_time g), ev_due = clk_now (g_time g) + 1000,
          ev_repeat = None, ev_callback = RespawnShip \<rparr>]" by simp
  have due: "clk_now (g_time g) + 1000 \<le> clk_now (g_time ?g1) + 1000" using r by simp
  note t = tick_respawn [OF ev1 due]
  from t have iu: "invincible_until (clk_now (g_time ?g1) + 1000 + SHIP_INVINCIBILITY) ?g2"
    by simp
  then have inv2: "s_isInvincible (g_ship ?g2)" using invincible_until_timers_only by blast
  from t s1 have p2: "phase ?g2 = Playing" by (simp add: phase_def)
  from inv2 have c2: "checkShipAsteroidCollisions overlap ?g2 = ?g2"
    by (simp add: checkShipAsteroidCollisions_def)
  from tick_invincible [OF iu, of SHIP_INVINCIBILITY] t
  have "invincibility_over ?g3" by simp
  with tick_invincible_frame [OF iu, of SHIP_INVINCIBILITY] t r s1 l a
  have "ready (n - 1) ?g3"
    by (simp add: ready_def invincibility_over_def phase_def)
  with r p2 c2 l show ?thesis by (simp add: h)
qed

text \<open>
  C1 (as amended). When a ship-asteroid collision is detected in \<open>Playing\<close> (the ship
  neither invincible nor respawning), lives go down by exactly one and the session goes
  to \<open>Respawning\<close> when at least one life is left after the decrement (the ship is hidden
  and one respawn is scheduled 1000 ms later), and to \<open>GameOver\<close> when none is left (the
  ship's timers are released, the score is handed over, no respawn is scheduled); there is
  no other outcome. Starting with 3 lives and nothing pending, three hits, each after the
  respawn delay and the invincibility of the one before have elapsed, yield
  \<open>Respawning\<close>, \<open>Respawning\<close>, \<open>GameOver\<close> with 2, 1 and 0 lives, the session being back in
  \<open>Playing\<close> in between, and no respawn is pending after the third.
\<close>

theorem ship_hit_transition:
  assumes "phase g = Playing" and "\<not> s_isInvincible (g_ship g)"
      and "\<exists>a \<in> set (g_asteroids g). overlap (g_ship g) a"
  shows "(let g' = checkShipAsteroidCollisions overlap g in
            g_lives g' = g_lives g - 1
          \<and> g_livesText g' = g_lives g'
          \<and> g_asteroids g' = g_asteroids g
          \<and> (phase g' = Respawning) = (1 \<le> g_lives g')
          \<and> (phase g' = GameOver) = (g_lives g' \<le> 0)
          \<and> (1 \<le> g_lives g' \<longrightarrow>
                \<not> s_visible (g_ship g')
              \<and> clk_events (g_time g') = clk_events (g_time g) @
                  [\<lparr> ev_id = clk_next (g_time g), ev_due = clk_now (g_time g) + 1000,
                     ev_repeat = None, ev_callback = RespawnShip \<rparr>])
          \<and> (g_lives g' \<le> 0 \<longrightarrow>
                g_started g' = Some (g_score g)
              \<and> clk_events (g_time g') =
                  filter (\<lambda>e. Some (ev_id e) \<noteq> s_flickerTimer (g_ship g)
                             \<and> Some (ev_id e) \<noteq> s_invincibilityTimer (g_ship g))
                    (clk_events (g_time g))))
       \<and> (g_lives g = GAME_LIVES \<and> clk_events (g_time g) = [] \<and> (\<forall>s a. overlap s a) \<longrightarrow>
            (let hit = checkShipAsteroidCollisions overlap;
                 g1 = hit g;
                 g2 = tick SHIP_INVINCIBILITY (tick 1000 g1);
                 g3 = hit g2;
                 g4 = tick SHIP_INVINCIBILITY (tick 1000 g3);
                 g5 = hit g4
             in map phase [g1, g2, g3, g4, g5]
                  = [Respawning, Playing, Respawning, Playing, GameOver]
              \<and> map g_lives [g1, g3, g5] = [2, 1, 0]
              \<and> hit (tick 1000 g1) = tick 1000 g1
              \<and> clk_events (g_time g5) = []))"
proof (intro conjI impI)
  have h: "checkShipAsteroidCollisions overlap g = onShipHit g"
    using assms by (rule checkShipAsteroidCollisions_hit)
  show "let g' = checkShipAsteroidCollisions overlap g in
            g_lives g' = g_lives g - 1
          \<and> g_livesText g' = g_lives g'
          \<and> g_asteroids g' = g_asteroids g
          \<and> (phase g' = Respawning) = (1 \<le> g_lives g')
          \<and> (phase g' = GameOver) = (g_lives g' \<le> 0)
          \<and> (1 \<le> g_lives g' \<longrightarrow>
                \<not> s_visible (g_ship g')
              \<and> clk_events (g_time g') = clk_events (g_time g) @
                  [\<lparr> ev_id = clk_next (g_time g), ev_due = clk_now (g_time g) + 1000,
                     ev_repeat = None, ev_callback = RespawnShip \<rparr>])
          \<and> (g_lives g' \<le> 0 \<longrightarrow>
                g_started g' = Some (g_score g)
              \<and> clk_events (g_time g') =
                  filter (\<lambda>e. Some (ev_id e) \<noteq> s_flickerTimer (g_ship g)
                             \<and> Some (ev_id e) \<noteq> s_invincibilityTimer (g_ship g))
                    (clk_events (g_time g)))"
  proof (cases "1 < g_lives g")
    case True
    from onShipHit_respawning [OF assms(1) True] True show ?thesis
      by (simp add: h Let_def)
  next
    case False
    then have "g_lives g \<le> 1" by simp
    from onShipHit_gameOver [OF this] False show ?thesis
      by (simp add: h Let_def)
  qed
next
  assume s: "g_lives g = GAME_LIVES \<and> clk_events (g_time g) = [] \<and> (\<forall>s a. overlap s a)"
  then have o: "\<forall>s a. overlap s a" by simp
  let ?hit = "checkShipAsteroidCollisions overlap"
  let ?g1 = "?hit g"
  let ?g2 = "tick SHIP_INVINCIBILITY (tick 1000 ?g1)"
  let ?g3 = "?hit ?g2"
  let ?g4 = "tick SHIP_INVINCIBILITY (tick 1000 ?g3)"
  let ?g5 = "?hit ?g4"
  from assms(3) have "g_asteroids g \<noteq> []" by auto
  with assms s have r3: "ready 3 g" by (simp add: ready_def GAME_LIVES_def)
  have c1: "phase ?g1 = Respawning \<and> g_lives ?g1 = 2
       \<and> phase (tick 1000 ?g1) = Playing \<and> ?hit (tick 1000 ?g1) = tick 1000 ?g1
       \<and> ready 2 ?g2"
    using respawn_cycle [OF r3 _ o] by simp
  then have r2: "ready 2 ?g2" by simp
  have c2: "phase ?g3 = Respawning \<and> g_lives ?g3 = 1
       \<and> phase (tick 1000 ?g3) = Playing \<and> ?hit (tick 1000 ?g3) = tick 1000 ?g3
       \<and> ready 1 ?g4"
    using respawn_cycle [OF r2 _ o] by simp
  then have r1: "ready 1 ?g4" by simp
  then have p4: "phase ?g4 = Playing" and i4: "\<not> s_isInvincible (g_ship ?g4)"
    and e4: "clk_events (g_time ?g4) = []" and l4: "g_lives ?g4 = 1"
    and a4: "g_asteroids ?g4 \<noteq> []"
    by (simp_all add: ready_def)
  from a4 o have "\<exists>a \<in> set (g_asteroids ?g4). overlap (g_ship ?g4) a"
    by (cases "g_asteroids ?g4") auto
  with p4 i4 have h5: "?g5 = onShipHit ?g4" by (rule checkShipAsteroidCollisions_hit)
  from l4 have "g_lives ?g4 \<le> 1" by simp
  note go = onShipHit_gameOver [OF this]
  have "map phase [?g1, ?g2, ?g3, ?g4, ?g5]
          = [Respawning, Playing, Respawning, Playing, GameOver]"
    using c1 c2 p4 r2 go by (simp add: h5 ready_def)
  moreover have "map g_lives [?g1, ?g3, ?g5] = [2, 1, 0]"
    using c1 c2 go l4 by (simp add: h5)
  moreover have "?hit (tick 1000 ?g1) = tick 1000 ?g1" using c1 by simp
  moreover have "clk_events (g_time ?g5) = []" using go e4 by (simp add: h5)
  ultimately show "let hit = checkShipAsteroidCollisions overlap;
                 g1 = hit g;
                 g2 = tick SHIP_INVINCIBILITY (tick 1000 g1);
                 g3 = hit g2;
                 g4 = tick SHIP_INVINCIBILITY (tick 1000 g3);
                 g5 = hit g4
             in map phase [g1, g2, g3, g4, g5]
                  = [Respawning, Playing, Respawning, Playing, GameOver]
              \<and> map g_lives [g1, g3, g5] = [2, 1, 0]
              \<and> hit (tick 1000 g1) = tick 1000 g1
              \<and> clk_events (g_time g5) = []"
    by (simp add: Let_def)
qed


lemma session_with_lives_ready:
  "phase (session_with_lives n) = Playing"
  "\<not> s_isInvincible (g_ship (session_with_lives n))"
  "\<exists>a \<in> set (g_asteroids (session_with_lives n)). (\<lambda>s a. True) (g_ship (session_with_lives n)) a"
  "g_lives (session_with_lives n) = n"
  "clk_events (g_time (session_with_lives n)) = []"
  by (simp_all add: session_with_lives_def create_state_def clock0_def new_Ship_def phase_def)

theorem ship_hit_transition_witness:
  "phase (session_with_lives 3) = Playing
   \<and> \<not> s_isInvincible (g_ship (session_with_lives 3))
   \<and> list_ex (\<lambda>a. True) (g_asteroids (session_with_lives 3))
   \<and> g_lives (checkShipAsteroidCollisions (\<lambda>s a. True) (session_with_lives 3)) = 2
   \<and> phase (checkShipAsteroidCollisions (\<lambda>s a. True) (session_with_lives 3)) = Respawning
   \<and> (let hit = checkShipAsteroidCollisions (\<lambda>s a. True);
           g1 = hit (session_with_lives 3);
           g2 = tick SHIP_INVINCIBILITY (tick 1000 g1);
           g3 = hit g2;
           g4 = tick SHIP_INVINCIBILITY (tick 1000 g3);
           g5 = hit g4
       in map phase [g1, g2, g3, g4, g5] = [Respawning, Playing, Respawning, Playing, GameOver]
        \<and> map g_lives [g1, g3, g5] = [2, 1, 0]
        \<and> hit (tick 1000 g1) = tick 1000 g1
        \<and> clk_events (g_time g5) = [])
   \<and> phase (session_with_lives 1) = Playing
   \<and> g_lives (checkShipAsteroidCollisions (\<lambda>s a. True) (session_with_lives 1)) = 0
   \<and> phase (checkShipAsteroidCollisions (\<lambda>s a. True) (session_with_lives 1)) = GameOver
   \<and> g_started (checkShipAsteroidCollisions (\<lambda>s a. True) (session_with_lives 1)) = Some 0"
proof -
  note r1 = session_with_lives_ready [of 1]
  note u = ship_hit_transition [OF r1(1) r1(2) r1(3)]
  have sc: "g_score (session_with_lives 1) = 0"
    by (simp add: session_with_lives_def create_state_def)
  from u have u1: "let g' = checkShipAsteroidCollisions (\<lambda>s a. True) (session_with_lives 1) in
            g_lives g' = g_lives (session_with_lives 1) - 1
          \<and> (phase g' = GameOver) = (g_lives g' \<le> 0)
          \<and> (g_lives g' \<le> 0 \<longrightarrow> g_started g' = Some (g_score (session_with_lives 1)))"
    by (simp add: Let_def)
  then have last:
    "g_lives (checkShipAsteroidCollisions (\<lambda>s a. True) (session_with_lives 1)) = 0
     \<and> phase (checkShipAsteroidCollisions (\<lambda>s a. True) (session_with_lives 1)) = GameOver
     \<and> g_started (checkShipAsteroidCollisions (\<lambda>s a. True) (session_with_lives 1)) = Some 0"
    by (simp add: Let_def session_with_lives_ready sc)
  note r = session_with_lives_ready [of 3]
  note t = ship_hit_transition [OF r(1) r(2) r(3)]
  have a: "g_lives (session_with_lives 3) = GAME_LIVES
           \<and> clk_events (g_time (session_with_lives 3)) = [] \<and> (\<forall>(s::ship) (a::asteroid). True)"
    by (simp add: session_with_lives_ready GAME_LIVES_def)
  from t have t1: "let g' = checkShipAsteroidCollisions (\<lambda>s a. True) (session_with_lives 3) in
            g_lives g' = g_lives (session_with_lives 3) - 1
          \<and> g_livesText g' = g_lives g'
          \<and> g_asteroids g' = g_asteroids (session_with_lives 3)
          \<and> (phase g' = Respawning) = (1 \<le> g_lives g')" by (simp add: Let_def)
  from t a have t2: "let hit = checkShipAsteroidCollisions (\<lambda>s a. True);
           g1 = hit (session_with_lives 3);
           g2 = tick SHIP_INVINCIBILITY (tick 1000 g1);
           g3 = hit g2;
           g4 = tick SHIP_INVINCIBILITY (tick 1000 g3);
           g5 = hit g4
       in map phase [g1, g2, g3, g4, g5] = [Respawning, Playing, Respawning, Playing, GameOver]
        \<and> map g_lives [g1, g3, g5] = [2, 1, 0]
        \<and> hit (tick 1000 g1) = tick 1000 g1
        \<and> clk_events (g_time g5) = []" by blast
  have l: "list_ex (\<lambda>a. True) (g_asteroids (session_with_lives 3))"
    by (simp add: session_with_lives_def)
  from t1 have "g_lives (checkShipAsteroidCollisions (\<lambda>s a. True) (session_with_lives 3)) = 2
     \<and> phase (checkShipAsteroidCollisions (\<lambda>s a. True) (session_with_lives 3)) = Respawning"
    by (simp add: Let_def session_with_lives_ready)
  with t2 l session_with_lives_ready(1,2) [of 3] r1(1) last show ?thesis by blast
qed

text \<open>
  With two lives before the hit, one is left after the decrement, which is not more than
  one, and the session goes to \<open>Respawning\<close> all the same.
\<close>

theorem ship_hit_last_spare_life_counterexample:
  "phase (checkShipAsteroidCollisions (\<lambda>s a. True) (session_with_lives 2)) = Respawning
   \<and> \<not> 1 < g_lives (checkShipAsteroidCollisions (\<lambda>s a. True) (session_with_lives 2))"
  by (simp add: checkShipAsteroidCollisions_def session_with_lives_def create_state_def
      clock0_def new_Ship_def onShipHit_def Let_def delayedCall_def addEvent_def phase_def)

section \<open>Splitting an asteroid\<close>











section \<open>Spawning a wave\<close>











end
